theory Spec2Isabelle
  imports Main "HOL-Library.Word"
begin

section \<open>Data model of \<open>app/main.py\<close>\<close>

text \<open>
  The service keeps one SQL table of \<open>Image\<close> rows and a directory of files.
  \<open>ImageBase\<close> carries the two fields shared by the table model and by the public
  response model; \<open>Image\<close> adds the primary key and the path of the file,
  \<open>ImagePublic\<close> adds only the key.  The Python attribute \<open>id\<close> is called
  \<open>img_id\<close> in \<open>Image\<close> and \<open>pub_id\<close> in \<open>ImagePublic\<close>, because \<open>id\<close> is the
  identity function of HOL.  In the Python class \<open>id\<close> is \<open>None\<close> only between the
  construction of an object and its INSERT; a row of the table always holds its
  key, so \<open>img_id\<close> is an \<open>int\<close>.  The column \<open>filepath\<close> is nullable.
\<close>

type_synonym bytes = "8 word list"

record ImageBase =
  album :: int
  starred :: bool

record Image = ImageBase +
  img_id :: int
  filepath :: "string option"

record ImagePublic = ImageBase +
  pub_id :: int

text \<open>
  \<open>fastapi.UploadFile\<close>: the declared media type may be absent; \<open>file_read\<close> is
  what \<open>img_upload.file.read()\<close> returns.
\<close>

record UploadFile =
  filename :: "string option"
  content_type :: "string option"
  file_read :: bytes

text \<open>\<open>fastapi.responses.FileResponse(path, media_type=...)\<close>.\<close>

record FileResponse =
  path :: string
  media_type :: string

text \<open>
  The exceptions that can leave a handler.  \<open>HTTPException\<close> carries the status code
  and the detail; the other four are the Python built-ins, which the framework
  reports as a server error when nothing catches them.
\<close>

datatype exn =
    HTTPException nat string
  | AttributeError
  | IndexError
  | OSError
  | OverflowError

text \<open>The persisted state: the rows of the table in key order, and the files.\<close>

record state =
  table :: "Image list"
  disk :: "string \<rightharpoonup> bytes"

definition IMAGES_DIR :: string where
  "IMAGES_DIR = ''./images''"

section \<open>Python strings and sequences\<close>

definition startswith :: "string \<Rightarrow> string \<Rightarrow> bool" where
  "startswith s p = (take (length p) s = p)"

text \<open>
  \<open>s.split(c)\<close> for a separator of one character: the result is never empty,
  and \<open>''''.split(c)\<close> is the list holding the empty string.
\<close>

fun str_split :: "char \<Rightarrow> string \<Rightarrow> string list" where
  "str_split c [] = [[]]"
| "str_split c (x # xs) =
     (if x = c then [] # str_split c xs
      else (case str_split c xs of
              [] \<Rightarrow> [[x]]
            | y # ys \<Rightarrow> (x # y) # ys))"

text \<open>
  \<open>xs[i]\<close>.  An index from 0 up to the length reads from the front, an index
  from minus the length up to -1 reads from the back, and any other index raises
  \<open>IndexError\<close>.
\<close>

definition getitem :: "'a list \<Rightarrow> int \<Rightarrow> exn + 'a" where
  "getitem xs i =
     (if 0 \<le> i \<and> i < int (length xs) then Inr (xs ! nat i)
      else if i < 0 \<and> - int (length xs) \<le> i then Inr (xs ! nat (int (length xs) + i))
      else Inl IndexError)"

section \<open>The session: queries and commands on the table\<close>

text \<open>
  The path parameters \<open>album_id\<close> and \<open>image_id\<close> are Python integers of any
  size.  The database is SQLite (\<open>sqlite_url\<close>), whose INTEGER is a signed 64-bit value: the
  table holds such values only, and when a statement is executed with an integer
  outside that range as a parameter, the driver raises \<open>OverflowError\<close>.
\<close>

definition sqlite_int :: "int \<Rightarrow> bool" where
  "sqlite_int i = (- 9223372036854775808 \<le> i \<and> i < 9223372036854775808)"

definition bind_int :: "int \<Rightarrow> exn + int" where
  "bind_int i = (if sqlite_int i then Inr i else Inl OverflowError)"

text \<open>
  \<open>session.exec(statement)\<close> for a SELECT that compares a column with the
  parameter \<open>p\<close>; \<open>result\<close> is the list of the rows that match.  A parameter
  outside the 64-bit range is equal to no stored value: it matches no row, and
  its binding raises \<open>OverflowError\<close>.  So the rows that match are the answer
  when there are any, and the parameter decides when there is none.  Where the
  stored values are 64-bit values this is the check of the parameter before the
  query runs (\<open>session_exec_stored\<close> below).
\<close>

definition session_exec :: "int \<Rightarrow> 'a list \<Rightarrow> exn + 'a list" where
  "session_exec p result =
     (case result of
        [] \<Rightarrow> (case bind_int p of Inl e \<Rightarrow> Inl e | Inr _ \<Rightarrow> Inr [])
      | r # rest \<Rightarrow> Inr (r # rest))"

text \<open>
  A \<open>where\<close> argument as \<open>create_image\<close> builds it.  \<open>Image.album == album_id\<close> is
  an SQL comparison object (\<open>AlbumEq\<close>); \<open>Image.starred is True\<close> is Python's identity
  test of a column attribute against \<open>True\<close>, a plain \<open>False\<close> (\<open>Literal\<close>).
\<close>

datatype whereclause = AlbumEq int | Literal bool

text \<open>
  Modelled from the spec: the truth value the ORM gives an \<open>==\<close> comparison
  object, which is not under \<open>src/\<close>.  The comparison of a column with a bound
  value is false as a Python boolean (its two operands are different objects), so
  that the combined filter is the album-only filter that the design notes of the
  spec name.
\<close>

definition truthy :: "whereclause \<Rightarrow> bool" where
  "truthy w = (case w of AlbumEq a \<Rightarrow> False | Literal b \<Rightarrow> b)"

text \<open>Python's \<open>x and y\<close>: \<open>x\<close> when \<open>x\<close> is false as a boolean, else \<open>y\<close>.\<close>

definition py_and :: "whereclause \<Rightarrow> whereclause \<Rightarrow> whereclause" where
  "py_and x y = (if truthy x then y else x)"

definition matches :: "whereclause \<Rightarrow> Image \<Rightarrow> bool" where
  "matches w r = (case w of AlbumEq a \<Rightarrow> album r = a | Literal b \<Rightarrow> b)"

text \<open>\<open>select(Image).where(w)\<close>\<close>

definition select_where :: "whereclause \<Rightarrow> Image list \<Rightarrow> Image list" where
  "select_where w rows = filter (matches w) rows"

text \<open>\<open>select(Image).filter_by(album=a, starred=b)\<close>\<close>

definition filter_by :: "int \<Rightarrow> bool \<Rightarrow> Image list \<Rightarrow> Image list" where
  "filter_by a b rows = filter (\<lambda>r. album r = a \<and> starred r = b) rows"

text \<open>\<open>results.first()\<close>\<close>

fun first_row :: "'a list \<Rightarrow> 'a option" where
  "first_row [] = None"
| "first_row (r # rest) = Some r"

text \<open>The row of a key: the SELECT by primary key behind \<open>session.get\<close>.\<close>

definition session_get :: "int \<Rightarrow> Image list \<Rightarrow> Image option" where
  "session_get i rows = find (\<lambda>r. img_id r = i) rows"

text \<open>
  \<open>session.get(Image, image_id)\<close> as a handler calls it.  The keys in the table
  are SQLite INTEGERs, so a key outside the 64-bit range is the key of no row; the
  lookup of such a key raises \<open>OverflowError\<close> when the key is bound.  So the row
  of the key is the answer when there is one, and the key decides when there is
  none.
\<close>

definition session_get_bound :: "int \<Rightarrow> Image list \<Rightarrow> exn + Image option" where
  "session_get_bound i rows =
     (case session_get i rows of
        Some r \<Rightarrow> Inr (Some r)
      | None \<Rightarrow> (case bind_int i of Inl e \<Rightarrow> Inl e | Inr _ \<Rightarrow> Inr None))"

text \<open>
  The key the backend assigns to a new row: one more than the largest key in the
  table, 1 in an empty table.
\<close>

definition next_id :: "Image list \<Rightarrow> int" where
  "next_id rows = foldr max (map img_id rows) 0 + 1"

text \<open>\<open>session.add(new_image); session.commit(); session.refresh(new_image)\<close>\<close>

definition session_add :: "int \<Rightarrow> bool \<Rightarrow> string option \<Rightarrow> Image list \<Rightarrow> Image \<times> Image list" where
  "session_add a st fp rows =
     (let new_image = \<lparr>album = a, starred = st, img_id = next_id rows, filepath = fp\<rparr>
      in (new_image, rows @ [new_image]))"

text \<open>\<open>session.delete(image); session.commit()\<close>: DELETE by primary key.\<close>

definition session_delete :: "Image \<Rightarrow> Image list \<Rightarrow> Image list" where
  "session_delete img rows = filter (\<lambda>r. img_id r \<noteq> img_id img) rows"

text \<open>
  \<open>obj.sqlmodel_update({"starred": v}); session.add(obj); session.commit()\<close>:
  UPDATE of the flag by primary key.
\<close>

definition update_starred :: "int \<Rightarrow> bool \<Rightarrow> Image list \<Rightarrow> Image list" where
  "update_starred i v rows = map (\<lambda>r. if img_id r = i then r\<lparr>starred := v\<rparr> else r) rows"

text \<open>The response model \<open>ImagePublic\<close> keeps \<open>id\<close>, \<open>album\<close> and \<open>starred\<close>.\<close>

definition ImagePublic_of :: "Image \<Rightarrow> ImagePublic" where
  "ImagePublic_of r = \<lparr>album = album r, starred = starred r, pub_id = img_id r\<rparr>"

section \<open>The file system\<close>

text \<open>
  \<open>with open(filepath, "wb+") as f_obj: f_obj.write(data)\<close>.  What the operating
  system does is an input of the model: the call goes through, or \<open>open\<close> fails
  (nothing is created), or \<open>write\<close> fails after \<open>open\<close> has created the empty file.
\<close>

datatype io_outcome = IoOk | OpenFails | WriteFails

definition open_write ::
  "io_outcome \<Rightarrow> string \<Rightarrow> bytes \<Rightarrow> (string \<rightharpoonup> bytes) \<Rightarrow> (exn + unit) \<times> (string \<rightharpoonup> bytes)" where
  "open_write io p data fs =
     (case io of
        IoOk \<Rightarrow> (Inr (), fs(p \<mapsto> data))
      | OpenFails \<Rightarrow> (Inl OSError, fs)
      | WriteFails \<Rightarrow> (Inl OSError, fs(p \<mapsto> [])))"

section \<open>The handlers\<close>

text \<open>
  The \<open>try\<close> block of \<open>create_image\<close>: a missing media type raises
  \<open>AttributeError\<close>, a media type that does not start with \<open>image\<close> raises the 406
  exception, both inside the \<open>try\<close>.
\<close>

definition check_media_type :: "UploadFile \<Rightarrow> exn + unit" where
  "check_media_type img_upload =
     (case content_type img_upload of
        None \<Rightarrow> Inl AttributeError
      | Some ct \<Rightarrow>
          if \<not> startswith ct ''image'' then Inl (HTTPException 406 ''Invalid file type'')
          else Inr ())"

text \<open>
  \<open>except Exception\<close> catches every exception of the block, the 406 exception
  among them, and raises the 400 exception in its place.
\<close>

definition validate_media_type :: "UploadFile \<Rightarrow> exn + unit" where
  "validate_media_type img_upload =
     (case check_media_type img_upload of
        Inl e \<Rightarrow> Inl (HTTPException 400 ''Invalid upload'')
      | Inr u \<Rightarrow> Inr u)"

text \<open>
  \<open>create_image\<close>.  \<open>tok\<close> is the value of \<open>secrets.token_hex(8)\<close> and \<open>io\<close> the
  outcome of the write; the result is the response (through the response model
  \<open>ImagePublic\<close>) or the exception, and the state left behind.  The query for
  the starred image runs before the file is opened; its \<open>where\<close> clause is the
  album comparison that \<open>and\<close> keeps, with \<open>album_id\<close> as its parameter.
\<close>

definition create_image ::
  "int \<Rightarrow> UploadFile \<Rightarrow> string \<Rightarrow> io_outcome \<Rightarrow> state \<Rightarrow> (exn + ImagePublic) \<times> state" where
  "create_image album_id img_upload tok io s =
     (case validate_media_type img_upload of
        Inl e \<Rightarrow> (Inl e, s)
      | Inr _ \<Rightarrow>
     (case content_type img_upload of
        None \<Rightarrow> (Inl AttributeError, s)
      | Some ct \<Rightarrow>
     (case getitem (str_split CHR ''/'' ct) 1 of
        Inl e \<Rightarrow> (Inl e, s)
      | Inr file_ext \<Rightarrow>
          let filename = tok @ ''.'' @ file_ext;
              fpath = IMAGES_DIR @ ''/'' @ filename;
              statement = select_where (py_and (AlbumEq album_id) (Literal False))
          in (case session_exec album_id (statement (table s)) of
                Inl e \<Rightarrow> (Inl e, s)
              | Inr starred_results \<Rightarrow>
                  let star = (first_row starred_results = None)
                  in (case open_write io fpath (file_read img_upload) (disk s) of
                        (Inl e, fs) \<Rightarrow> (Inl e, s\<lparr>disk := fs\<rparr>)
                      | (Inr _, fs) \<Rightarrow>
                          (case session_add album_id star (Some fpath) (table s) of
                             (new_image, rows) \<Rightarrow>
                               (Inr (ImagePublic_of new_image), \<lparr>table = rows, disk = fs\<rparr>)))))))"

text \<open>\<open>delete_image\<close>: the file of the row is not touched.\<close>

definition delete_image :: "int \<Rightarrow> state \<Rightarrow> (exn + (string \<times> bool) list) \<times> state" where
  "delete_image image_id s =
     (case session_get_bound image_id (table s) of
        Inl e \<Rightarrow> (Inl e, s)
      | Inr None \<Rightarrow> (Inl (HTTPException 404 ''Image not found''), s)
      | Inr (Some img) \<Rightarrow>
          (Inr [(''ok'', True)], s\<lparr>table := session_delete img (table s)\<rparr>))"

text \<open>
  \<open>get_album\<close>: \<open>select(Image).offset(0).limit(10).where(Image.album == album_id)\<close>,
  the first ten rows of the album, through the response model.
\<close>

definition get_album :: "int \<Rightarrow> state \<Rightarrow> exn + ImagePublic list" where
  "get_album album_id s =
     (case session_exec album_id (take 10 (drop 0 (select_where (AlbumEq album_id) (table s)))) of
        Inl e \<Rightarrow> Inl e
      | Inr images \<Rightarrow> Inr (map ImagePublic_of images))"

text \<open>\<open>get_starred\<close>\<close>

definition get_starred :: "int \<Rightarrow> state \<Rightarrow> exn + FileResponse" where
  "get_starred album_id s =
     (case session_exec album_id (filter_by album_id True (table s)) of
        Inl e \<Rightarrow> Inl e
      | Inr results \<Rightarrow>
     (case first_row results of
        None \<Rightarrow> Inl (HTTPException 404 ''No starred image found'')
      | Some img_entry \<Rightarrow>
          (case filepath img_entry of
             None \<Rightarrow> Inl AttributeError
           | Some p \<Rightarrow>
               (case getitem (str_split CHR ''.'' p) (- 1) of
                  Inl e \<Rightarrow> Inl e
                | Inr file_ext \<Rightarrow> Inr \<lparr>path = p, media_type = ''image/'' @ file_ext\<rparr>))))"

text \<open>
  \<open>set_starred\<close>.  \<open>results.first()\<close> is \<open>None\<close> when the album has no starred
  image, and the call of \<open>sqlmodel_update\<close> on it raises \<open>AttributeError\<close>.
\<close>

definition set_starred :: "int \<Rightarrow> int \<Rightarrow> state \<Rightarrow> (exn + unit) \<times> state" where
  "set_starred album_id image_id s =
     (case session_get_bound image_id (table s) of
        Inl e \<Rightarrow> (Inl e, s)
      | Inr None \<Rightarrow> (Inl (HTTPException 404 ''Image not found''), s)
      | Inr (Some img) \<Rightarrow>
          if album img \<noteq> album_id then (Inl (HTTPException 404 ''Image not found''), s)
          else
            (case session_exec album_id (filter_by album_id True (table s)) of
               Inl e \<Rightarrow> (Inl e, s)
             | Inr results \<Rightarrow>
            (case first_row results of
               None \<Rightarrow> (Inl AttributeError, s)
             | Some prev_starred \<Rightarrow>
                 let rows1 = update_starred (img_id prev_starred) False (table s);
                     rows2 = update_starred (img_id img) True rows1
                 in (Inr (), s\<lparr>table := rows2\<rparr>))))"

text \<open>At most one image of the album is starred.\<close>

definition at_most_one_starred :: "int \<Rightarrow> Image list \<Rightarrow> bool" where
  "at_most_one_starred a rows = (length (filter_by a True rows) \<le> 1)"

text \<open>The state after \<open>on_startup\<close> on a fresh installation.\<close>

definition init_state :: state where
  "init_state = \<lparr>table = [], disk = Map.empty\<rparr>"

section \<open>Sample states\<close>

text \<open>An upload as the test client sends it: media type \<open>image/jpeg\<close>.\<close>

definition jpeg_upload :: "bytes \<Rightarrow> UploadFile" where
  "jpeg_upload d =
     \<lparr>filename = Some ''stand-in filename'', content_type = Some ''image/jpeg'', file_read = d\<rparr>"

text \<open>Two uploads into album 3 of a fresh installation.\<close>

definition two_uploads :: state where
  "two_uploads =
     snd (create_image 3 (jpeg_upload [2]) ''00000000000000b2'' IoOk
       (snd (create_image 3 (jpeg_upload [1]) ''00000000000000a1'' IoOk init_state)))"

text \<open>Then the first image, the starred one, is deleted.\<close>

definition starred_deleted :: state where
  "starred_deleted = snd (delete_image 1 two_uploads)"

text \<open>An album of eleven images.\<close>

definition eleven_rows :: state where
  "eleven_rows =
     \<lparr>table = map (\<lambda>i. \<lparr>album = 7, starred = False, img_id = i, filepath = None\<rparr>)
                  [1, 2, 3, 4, 5, 6, 7, 8, 9, 10, 11],
      disk = Map.empty\<rparr>"

section \<open>Reachable states\<close>

text \<open>
  The states of the service under sequential requests: the initial state, and
  what any handler that writes leaves behind, whether it succeeds or fails.
\<close>

inductive reachable :: "state \<Rightarrow> bool" where
  start: "reachable init_state"
| upload: "reachable s \<Longrightarrow> reachable (snd (create_image a u tok io s))"
| delete: "reachable s \<Longrightarrow> reachable (snd (delete_image i s))"
| star: "reachable s \<Longrightarrow> reachable (snd (set_starred a x s))"

section \<open>Strings\<close>

lemma str_split_no_sep: "c \<notin> set s \<Longrightarrow> str_split c s = [s]"
  by (induction s) auto

lemma str_split_not_Nil: "str_split c s \<noteq> []"
  by (induction s) (auto split: list.splits)

lemma str_split_two: "c \<in> set s \<Longrightarrow> 2 \<le> length (str_split c s)"
proof (induction s)
  case Nil
  then show ?case by simp
next
  case (Cons x xs)
  show ?case
  proof (cases "x = c")
    case True
    have "1 \<le> length (str_split c xs)"
      using str_split_not_Nil [of c xs] by (cases "str_split c xs") auto
    with True show ?thesis by simp
  next
    case False
    with Cons show ?thesis by (auto split: list.splits)
  qed
qed

lemma last_str_split: "c \<notin> set e \<Longrightarrow> last (str_split c (s @ c # e)) = e"
proof (induction s)
  case Nil
  then show ?case by (simp add: str_split_no_sep)
next
  case (Cons x xs)
  have "2 \<le> length (str_split c (xs @ c # e))"
    by (rule str_split_two) simp
  then obtain y z zs where "str_split c (xs @ c # e) = y # z # zs"
    by (cases "str_split c (xs @ c # e)" rule: list.exhaust; cases "tl (str_split c (xs @ c # e))") auto
  with Cons show ?case by auto
qed

lemma getitem_last: "xs \<noteq> [] \<Longrightarrow> getitem xs (- 1) = Inr (last xs)"
proof -
  assume ne: "xs \<noteq> []"
  then have len: "1 \<le> length xs" by (cases xs) auto
  then have "nat (int (length xs) + - 1) = length xs - 1" by simp
  with ne len show ?thesis by (simp add: getitem_def last_conv_nth)
qed

section \<open>The table\<close>

lemma session_get_None: "(session_get i rows = None) = (i \<notin> img_id ` set rows)"
  by (auto simp: session_get_def find_None_iff)

lemma session_get_Some: "session_get i rows = Some r \<Longrightarrow> r \<in> set rows \<and> img_id r = i"
  by (auto simp: session_get_def find_Some_iff)

lemma length_remove_key:
  "distinct (map f xs) \<Longrightarrow> k \<in> f ` set xs \<Longrightarrow> length (filter (\<lambda>r. f r \<noteq> k) xs) + 1 = length xs"
proof (induction xs)
  case Nil
  then show ?case by simp
next
  case (Cons x xs)
  show ?case
  proof (cases "f x = k")
    case True
    with Cons.prems have "k \<notin> f ` set xs" by auto
    then have "filter (\<lambda>r. f r \<noteq> k) xs = xs" by (auto simp: filter_id_conv)
    with True show ?thesis by simp
  next
    case False
    with Cons show ?thesis by auto
  qed
qed

lemma session_exec_in_range: "sqlite_int p \<Longrightarrow> session_exec p xs = Inr xs"
  by (cases xs) (simp_all add: session_exec_def bind_int_def)

lemma session_exec_rows: "xs \<noteq> [] \<Longrightarrow> session_exec p xs = Inr xs"
  by (cases xs) (simp_all add: session_exec_def)

lemma session_exec_overflow: "\<not> sqlite_int p \<Longrightarrow> session_exec p [] = Inl OverflowError"
  by (simp add: session_exec_def bind_int_def)

lemma session_exec_Inr: "session_exec p xs = Inr ys \<Longrightarrow> ys = xs"
  by (cases xs) (auto simp: session_exec_def bind_int_def split: if_splits)

lemma session_get_bound_Some:
  "session_get i rows = Some r \<Longrightarrow> session_get_bound i rows = Inr (Some r)"
  by (simp add: session_get_bound_def)

lemma session_get_bound_None:
  "session_get i rows = None \<Longrightarrow>
     session_get_bound i rows = (if sqlite_int i then Inr None else Inl OverflowError)"
  by (simp add: session_get_bound_def bind_int_def)

text \<open>
  Where the stored albums are 64-bit values, as they are in the database, the
  query raises exactly when its parameter is out of range.
\<close>

lemma session_exec_stored:
  assumes "\<forall>r \<in> set rows. sqlite_int (album r)"
  shows "session_exec a (filter_by a b rows) =
           (if sqlite_int a then Inr (filter_by a b rows) else Inl OverflowError)"
    and "session_exec a (select_where (AlbumEq a) rows) =
           (if sqlite_int a then Inr (select_where (AlbumEq a) rows) else Inl OverflowError)"
proof -
  have "filter_by a b rows = []" "select_where (AlbumEq a) rows = []" if "\<not> sqlite_int a"
    using assms that by (auto simp: filter_by_def select_where_def matches_def filter_empty_conv)
  then show "session_exec a (filter_by a b rows) =
           (if sqlite_int a then Inr (filter_by a b rows) else Inl OverflowError)"
    and "session_exec a (select_where (AlbumEq a) rows) =
           (if sqlite_int a then Inr (select_where (AlbumEq a) rows) else Inl OverflowError)"
    by (simp_all add: session_exec_in_range session_exec_overflow)
qed

text \<open>The two handlers that look a key up, in terms of the row of the key.\<close>

lemma delete_image_unfold:
  "delete_image i s =
     (case session_get i (table s) of
        None \<Rightarrow>
          if sqlite_int i then (Inl (HTTPException 404 ''Image not found''), s)
          else (Inl OverflowError, s)
      | Some img \<Rightarrow> (Inr [(''ok'', True)], s\<lparr>table := session_delete img (table s)\<rparr>))"
  by (cases "session_get i (table s)")
    (simp_all add: delete_image_def session_get_bound_def bind_int_def)

lemma set_starred_unfold:
  "set_starred a x s =
     (case session_get x (table s) of
        None \<Rightarrow>
          if sqlite_int x then (Inl (HTTPException 404 ''Image not found''), s)
          else (Inl OverflowError, s)
      | Some img \<Rightarrow>
          if album img \<noteq> a then (Inl (HTTPException 404 ''Image not found''), s)
          else
            (case first_row (filter_by a True (table s)) of
               None \<Rightarrow> if sqlite_int a then (Inl AttributeError, s) else (Inl OverflowError, s)
             | Some prev \<Rightarrow>
                 (Inr (), s\<lparr>table := update_starred (img_id img) True
                                        (update_starred (img_id prev) False (table s))\<rparr>)))"
proof (cases "session_get x (table s)")
  case None
  then show ?thesis
    by (simp add: set_starred_def session_get_bound_def bind_int_def)
next
  case (Some img)
  show ?thesis
  proof (cases "filter_by a True (table s)")
    case Nil
    with Some show ?thesis
      by (simp add: set_starred_def session_get_bound_def session_exec_def bind_int_def)
  next
    case (Cons prev rest)
    with Some show ?thesis
      by (simp add: set_starred_def session_get_bound_def session_exec_def Let_def)
  qed
qed

lemma two_uploads_eq:
  "two_uploads =
     \<lparr>table = [\<lparr>album = 3, starred = True, img_id = 1, filepath = Some ''./images/00000000000000a1.jpeg''\<rparr>,
               \<lparr>album = 3, starred = False, img_id = 2, filepath = Some ''./images/00000000000000b2.jpeg''\<rparr>],
      disk = [''./images/00000000000000a1.jpeg'' \<mapsto> [1], ''./images/00000000000000b2.jpeg'' \<mapsto> [2]]\<rparr>"
  by (simp add: two_uploads_def create_image_def validate_media_type_def check_media_type_def
      startswith_def jpeg_upload_def getitem_def init_state_def IMAGES_DIR_def select_where_def
      py_and_def truthy_def matches_def first_row.simps open_write_def session_add_def next_id_def
      ImagePublic_of_def Let_def session_exec_def bind_int_def sqlite_int_def)

lemma starred_deleted_eq:
  "starred_deleted =
     \<lparr>table = [\<lparr>album = 3, starred = False, img_id = 2, filepath = Some ''./images/00000000000000b2.jpeg''\<rparr>],
      disk = [''./images/00000000000000a1.jpeg'' \<mapsto> [1], ''./images/00000000000000b2.jpeg'' \<mapsto> [2]]\<rparr>"
  by (simp add: starred_deleted_def two_uploads_eq delete_image_unfold session_get_def
      session_delete_def)

section \<open>Uploads: the media type\<close>

lemma validate_ok:
  "content_type u = Some ct \<Longrightarrow> startswith ct ''image'' \<Longrightarrow> validate_media_type u = Inr ()"
  by (simp add: validate_media_type_def check_media_type_def)

text \<open>
  C2.  An upload declared as \<open>text/plain\<close> is refused and leaves the table and the
  files as they were, but the status of the refusal is 400, not 406: the 406
  exception is raised inside the \<open>try\<close> block, whose handler catches every
  exception and raises the 400 exception instead.
\<close>

theorem create_image_text_plain_400:
  "create_image album_id \<lparr>filename = fn, content_type = Some ''text/plain'', file_read = d\<rparr> tok io s
     = (Inl (HTTPException 400 ''Invalid upload''), s)"
  by (simp add: create_image_def validate_media_type_def check_media_type_def startswith_def)

text \<open>
  C9.  A media type that starts with \<open>image\<close> and holds no \<open>/\<close> passes the
  validation; the split at \<open>/\<close> then has one component only, the index 1 raises
  \<open>IndexError\<close>, which is neither the 406 nor the 400 exception, and the state is
  untouched: no file is written and no row is added.
\<close>

theorem create_image_no_slash:
  assumes "content_type img_upload = Some ct"
    and "startswith ct ''image''"
    and "CHR ''/'' \<notin> set ct"
  shows "create_image album_id img_upload tok io s = (Inl IndexError, s)"
proof -
  have "getitem (str_split CHR ''/'' ct) 1 = Inl IndexError"
    using assms(3) by (simp add: str_split_no_sep getitem_def)
  then show ?thesis
    using assms(1,2) by (simp add: create_image_def validate_ok)
qed

theorem create_image_no_slash_witness:
  "startswith ''imagedata'' ''image'' \<and> CHR ''/'' \<notin> set ''imagedata''
   \<and> create_image 3 \<lparr>filename = None, content_type = Some ''imagedata'', file_read = []\<rparr>
        ''00000000000000a1'' IoOk init_state
     = (Inl IndexError, init_state)"
  using create_image_no_slash
    [of "\<lparr>filename = None, content_type = Some ''imagedata'', file_read = []\<rparr>" "''imagedata''"
        3 "''00000000000000a1''" IoOk init_state]
  by (simp add: startswith_def)

section \<open>Listing an album\<close>

text \<open>
  C8.  For an album id within the range of an SQLite INTEGER, \<open>get_album\<close> returns
  at most ten records; every record belongs to the album asked for, is made of
  its \<open>id\<close>, \<open>album\<close> and \<open>starred\<close> alone (the response model has no other field,
  so no file path), and is the public view of a row of the table.
\<close>

theorem get_album_page:
  assumes "sqlite_int album_id"
  shows "\<exists>images. get_album album_id s = Inr images
     \<and> length images \<le> 10
     \<and> (\<forall>p \<in> set images.
           album p = album_id
           \<and> p = \<lparr>album = album p, starred = starred p, pub_id = pub_id p\<rparr>
           \<and> (\<exists>r \<in> set (table s). p = ImagePublic_of r))"
  using assms
  by (auto simp: get_album_def session_exec_in_range select_where_def matches_def ImagePublic_of_def
      dest!: in_set_takeD)

theorem get_album_page_witness:
  "sqlite_int 7
   \<and> length (table eleven_rows) = 11
   \<and> get_album 7 eleven_rows =
       Inr (map (\<lambda>i. \<lparr>album = 7, starred = False, pub_id = i\<rparr>) [1, 2, 3, 4, 5, 6, 7, 8, 9, 10])"
  using get_album_page [of 7 eleven_rows]
  by (simp add: eleven_rows_def get_album_def session_exec_def select_where_def matches_def
      ImagePublic_of_def sqlite_int_def)

text \<open>
  For the album id \<open>2^63\<close>, one past the largest SQLite INTEGER, \<open>get_album\<close>
  returns no sequence: the query raises \<open>OverflowError\<close>.
\<close>

theorem get_album_overflow:
  "get_album 9223372036854775808 two_uploads = Inl OverflowError"
  by (simp add: two_uploads_eq get_album_def session_exec_def bind_int_def sqlite_int_def
      select_where_def matches_def)

section \<open>Deleting an image\<close>

text \<open>
  C7.  For a key within the range of an SQLite INTEGER, \<open>delete_image\<close> fails,
  with the 404 exception, exactly when no row has the key.  Whenever no row has
  the key, nothing changes.  When a row has the key the answer is \<open>{"ok": true}\<close>,
  the table loses the rows of that key and keeps every other row as it was and in
  place, the files are untouched (the file of the deleted row stays), the key is
  no longer found, and no album listing shows it.  With the primary key unique,
  exactly one row is gone.
\<close>

theorem delete_image_frame:
  "(sqlite_int i \<longrightarrow>
      (fst (delete_image i s) = Inl (HTTPException 404 ''Image not found''))
        = (i \<notin> img_id ` set (table s)))
   \<and> (session_get i (table s) = None) = (i \<notin> img_id ` set (table s))
   \<and> (i \<notin> img_id ` set (table s) \<longrightarrow> snd (delete_image i s) = s)
   \<and> (i \<in> img_id ` set (table s) \<longrightarrow>
         fst (delete_image i s) = Inr [(''ok'', True)]
       \<and> table (snd (delete_image i s)) = filter (\<lambda>r. img_id r \<noteq> i) (table s)
       \<and> disk (snd (delete_image i s)) = disk s
       \<and> session_get i (table (snd (delete_image i s))) = None
       \<and> (\<forall>a images. get_album a (snd (delete_image i s)) = Inr images \<longrightarrow> i \<notin> pub_id ` set images)
       \<and> (distinct (map img_id (table s)) \<longrightarrow>
            length (table (snd (delete_image i s))) + 1 = length (table s)))"
proof (cases "session_get i (table s)")
  case None
  then have "i \<notin> img_id ` set (table s)" by (simp add: session_get_None)
  with None show ?thesis
    by (simp add: delete_image_def session_get_bound_None)
next
  case (Some img)
  then have mem: "i \<in> img_id ` set (table s)" and k: "img_id img = i"
    using session_get_None [of i "table s"] session_get_Some [of i "table s" img] by auto
  have t: "table (snd (delete_image i s)) = filter (\<lambda>r. img_id r \<noteq> i) (table s)"
    using Some k by (simp add: delete_image_def session_get_bound_Some session_delete_def)
  have g: "i \<notin> pub_id ` set images" if "get_album a (snd (delete_image i s)) = Inr images" for a images
  proof -
    from that have "images = map ImagePublic_of
        (take 10 (drop 0 (select_where (AlbumEq a) (table (snd (delete_image i s))))))"
      by (auto simp: get_album_def split: sum.splits dest: session_exec_Inr)
    then show ?thesis
      by (auto simp: t select_where_def ImagePublic_of_def dest!: in_set_takeD)
  qed
  have l: "distinct (map img_id (table s)) \<longrightarrow> length (table (snd (delete_image i s))) + 1 = length (table s)"
    using mem length_remove_key [of img_id "table s" i] by (simp add: t)
  have n: "session_get i (table (snd (delete_image i s))) = None"
    by (auto simp: t session_get_None)
  have f: "fst (delete_image i s) = Inr [(''ok'', True)]" "disk (snd (delete_image i s)) = disk s"
    using Some by (simp_all add: delete_image_def session_get_bound_Some)
  from mem t g l n f Some show ?thesis by (simp add: session_get_None)
qed

theorem delete_image_frame_witness:
  "sqlite_int 1 \<and> sqlite_int 5
   \<and> 1 \<in> img_id ` set (table two_uploads)
   \<and> distinct (map img_id (table two_uploads))
   \<and> fst (delete_image 1 two_uploads) = Inr [(''ok'', True)]
   \<and> table (snd (delete_image 1 two_uploads)) =
       [\<lparr>album = 3, starred = False, img_id = 2, filepath = Some ''./images/00000000000000b2.jpeg''\<rparr>]
   \<and> disk (snd (delete_image 1 two_uploads)) ''./images/00000000000000a1.jpeg'' = Some [1]
   \<and> session_get 1 (table (snd (delete_image 1 two_uploads))) = None
   \<and> get_album 3 (snd (delete_image 1 two_uploads)) = Inr [\<lparr>album = 3, starred = False, pub_id = 2\<rparr>]
   \<and> fst (delete_image 5 two_uploads) = Inl (HTTPException 404 ''Image not found'')"
  using delete_image_frame [of 1 two_uploads] delete_image_frame [of 5 two_uploads]
  by (simp add: two_uploads_eq delete_image_def session_get_bound_def session_get_def
      session_delete_def bind_int_def sqlite_int_def get_album_def session_exec_def
      select_where_def matches_def ImagePublic_of_def)

text \<open>
  No row has the key \<open>2^63\<close>, one past the largest SQLite INTEGER, and yet the
  failure of \<open>delete_image\<close> at that key is not the 404 exception: the lookup
  raises \<open>OverflowError\<close>.
\<close>

theorem delete_image_overflow:
  "9223372036854775808 \<notin> img_id ` set (table two_uploads)
   \<and> delete_image 9223372036854775808 two_uploads = (Inl OverflowError, two_uploads)"
  by (simp add: two_uploads_eq delete_image_def session_get_bound_def session_get_def
      bind_int_def sqlite_int_def)

section \<open>Uploads: the file, the row and the flag\<close>

lemma getitem_split_1:
  "c \<in> set s \<Longrightarrow> getitem (str_split c s) 1 = Inr (str_split c s ! 1)"
  using str_split_two [of c s] by (simp add: getitem_def Let_def)

text \<open>
  What \<open>create_image\<close> does once the media type is accepted and has a subtype,
  and the album id is within the range of an SQLite INTEGER.
\<close>

lemma create_image_valid:
  assumes "content_type u = Some ct" and "startswith ct ''image''" and "CHR ''/'' \<in> set ct"
    and "sqlite_int a"
  shows "create_image a u tok io s =
     (let fpath = IMAGES_DIR @ ''/'' @ tok @ ''.'' @ str_split CHR ''/'' ct ! 1;
          star = (first_row (select_where (py_and (AlbumEq a) (Literal False)) (table s)) = None)
      in (case open_write io fpath (file_read u) (disk s) of
            (Inl e, fs) \<Rightarrow> (Inl e, s\<lparr>disk := fs\<rparr>)
          | (Inr _, fs) \<Rightarrow>
              (case session_add a star (Some fpath) (table s) of
                 (new_image, rows) \<Rightarrow>
                   (Inr (ImagePublic_of new_image), \<lparr>table = rows, disk = fs\<rparr>))))"
  using assms
  by (simp add: create_image_def validate_ok getitem_split_1 session_exec_in_range Let_def)

text \<open>
  C5.  For an upload that reaches the write (an accepted media type with a
  subtype, an album id within the range of an SQLite INTEGER) the file is written
  before the row is added.  When the write fails (at \<open>open\<close> or at \<open>write\<close>) the
  handler ends with the \<open>OSError\<close> of the failed write and the table is as before.
  When the write goes through, the row is appended, and its path is the path of
  the file just written.  Whatever the outcome, every row that the call added
  points at a file that holds the uploaded bytes: there is no row without its
  file.
\<close>

theorem create_image_write_then_row:
  assumes "content_type u = Some ct" and "startswith ct ''image''" and "CHR ''/'' \<in> set ct"
    and "sqlite_int a"
  shows
   "(io \<noteq> IoOk \<longrightarrow>
       fst (create_image a u tok io s) = Inl OSError
     \<and> table (snd (create_image a u tok io s)) = table s)
  \<and> (io = IoOk \<longrightarrow>
       (\<exists>new_image.
          fst (create_image a u tok io s) = Inr (ImagePublic_of new_image)
        \<and> table (snd (create_image a u tok io s)) = table s @ [new_image]
        \<and> album new_image = a
        \<and> filepath new_image = Some (IMAGES_DIR @ ''/'' @ tok @ ''.'' @ str_split CHR ''/'' ct ! 1)
        \<and> disk (snd (create_image a u tok io s))
             (IMAGES_DIR @ ''/'' @ tok @ ''.'' @ str_split CHR ''/'' ct ! 1) = Some (file_read u)))
  \<and> (\<forall>r \<in> set (table (snd (create_image a u tok io s))) - set (table s).
        \<exists>p. filepath r = Some p \<and> disk (snd (create_image a u tok io s)) p = Some (file_read u))"
proof (cases io)
  case IoOk
  then show ?thesis
    by (auto simp: create_image_valid [OF assms] open_write_def session_add_def Let_def)
next
  case OpenFails
  then show ?thesis
    by (simp add: create_image_valid [OF assms] open_write_def Let_def)
next
  case WriteFails
  then show ?thesis
    by (simp add: create_image_valid [OF assms] open_write_def Let_def)
qed

theorem create_image_write_then_row_witness:
  "startswith ''image/jpeg'' ''image'' \<and> CHR ''/'' \<in> set ''image/jpeg'' \<and> sqlite_int 3
   \<and> create_image 3 (jpeg_upload [7]) ''00000000000000c3'' OpenFails two_uploads
       = (Inl OSError, two_uploads)
   \<and> fst (create_image 3 (jpeg_upload [7]) ''00000000000000c3'' WriteFails two_uploads) = Inl OSError
   \<and> table (snd (create_image 3 (jpeg_upload [7]) ''00000000000000c3'' WriteFails two_uploads))
       = table two_uploads
   \<and> fst (create_image 3 (jpeg_upload [7]) ''00000000000000c3'' IoOk two_uploads)
       = Inr \<lparr>album = 3, starred = False, pub_id = 3\<rparr>
   \<and> table (snd (create_image 3 (jpeg_upload [7]) ''00000000000000c3'' IoOk two_uploads))
       = table two_uploads @
           [\<lparr>album = 3, starred = False, img_id = 3, filepath = Some ''./images/00000000000000c3.jpeg''\<rparr>]
   \<and> disk (snd (create_image 3 (jpeg_upload [7]) ''00000000000000c3'' IoOk two_uploads))
         ''./images/00000000000000c3.jpeg'' = Some [7]"
  using create_image_write_then_row [of "jpeg_upload [7]" "''image/jpeg''" 3 OpenFails "''00000000000000c3''" two_uploads]
    create_image_write_then_row [of "jpeg_upload [7]" "''image/jpeg''" 3 WriteFails "''00000000000000c3''" two_uploads]
    create_image_write_then_row [of "jpeg_upload [7]" "''image/jpeg''" 3 IoOk "''00000000000000c3''" two_uploads]
  by (simp add: two_uploads_eq create_image_def validate_media_type_def check_media_type_def
      startswith_def jpeg_upload_def getitem_def IMAGES_DIR_def select_where_def
      py_and_def truthy_def matches_def first_row.simps open_write_def session_add_def next_id_def
      ImagePublic_of_def Let_def session_exec_def bind_int_def sqlite_int_def)

text \<open>
  An upload into an album whose id is out of range and which, therefore, has no
  image: the query raises \<open>OverflowError\<close> before the file is opened, whatever the
  write would have done, and nothing is written or added.
\<close>

lemma create_image_overflow:
  assumes "content_type u = Some ct" and "startswith ct ''image''" and "CHR ''/'' \<in> set ct"
    and "\<not> sqlite_int a" and "\<forall>r \<in> set (table s). album r \<noteq> a"
  shows "create_image a u tok io s = (Inl OverflowError, s)"
proof -
  have "select_where (py_and (AlbumEq a) (Literal False)) (table s) = []"
    using assms(5) by (auto simp: select_where_def py_and_def truthy_def matches_def filter_empty_conv)
  with assms(1-4) show ?thesis
    by (simp add: create_image_def validate_ok getitem_split_1 session_exec_overflow Let_def)
qed

lemma first_row_None: "(first_row xs = None) = (xs = [])"
  by (cases xs) (simp_all add: first_row.simps)

text \<open>
  The flag of a new image: the \<open>and\<close> of the query keeps the album comparison
  only, so the image is starred exactly when its album has no image at all.
\<close>

lemma create_image_star:
  assumes "content_type u = Some ct" and "startswith ct ''image''" and "CHR ''/'' \<in> set ct"
    and "sqlite_int a"
  shows "fst (create_image a u tok IoOk s) =
     Inr \<lparr>album = a, starred = (\<forall>r \<in> set (table s). album r \<noteq> a), pub_id = next_id (table s)\<rparr>"
  by (simp add: create_image_valid [OF assms] open_write_def session_add_def Let_def
      ImagePublic_of_def select_where_def py_and_def truthy_def matches_def first_row_None
      filter_empty_conv)

text \<open>
  C1.  After two uploads into album 3 and the deletion of the first, starred,
  image, album 3 holds one image and none that is starred.  The next upload into
  album 3 is stored with \<open>starred = False\<close>, although no image of the album is
  starred.
\<close>

theorem create_image_star_album_only:
  "table starred_deleted \<noteq> []
   \<and> filter_by 3 True (table starred_deleted) = []
   \<and> fst (create_image 3 (jpeg_upload [7]) ''00000000000000c3'' IoOk starred_deleted)
       = Inr \<lparr>album = 3, starred = False, pub_id = 3\<rparr>
   \<and> table (snd (create_image 3 (jpeg_upload [7]) ''00000000000000c3'' IoOk starred_deleted))
       = [\<lparr>album = 3, starred = False, img_id = 2, filepath = Some ''./images/00000000000000b2.jpeg''\<rparr>,
          \<lparr>album = 3, starred = False, img_id = 3, filepath = Some ''./images/00000000000000c3.jpeg''\<rparr>]"
  by (simp add: starred_deleted_eq create_image_def validate_media_type_def check_media_type_def
      startswith_def jpeg_upload_def getitem_def IMAGES_DIR_def select_where_def
      py_and_def truthy_def matches_def first_row.simps open_write_def session_add_def next_id_def
      ImagePublic_of_def Let_def filter_by_def session_exec_def)

section \<open>Fetching the starred image\<close>

lemma singleton_of_short: "length xs \<le> 1 \<Longrightarrow> x \<in> set xs \<Longrightarrow> xs = [x]"
  by (cases xs) auto

lemma get_starred_of_first:
  assumes "first_row (filter_by a True (table s)) = Some img" and "filepath img = Some p"
  shows "get_starred a s = Inr \<lparr>path = p, media_type = ''image/'' @ last (str_split CHR ''.'' p)\<rparr>"
proof -
  from assms(1) have "filter_by a True (table s) \<noteq> []" by auto
  then have "session_exec a (filter_by a True (table s)) = Inr (filter_by a True (table s))"
    by (rule session_exec_rows)
  with assms show ?thesis
    by (simp add: get_starred_def getitem_last str_split_not_Nil)
qed

text \<open>
  C6.  For an album id within the range of an SQLite INTEGER: when the album has
  its starred image, with a stored path \<open>p\<close>, \<open>get_starred\<close> answers with the file
  at \<open>p\<close> and the media type \<open>image/\<close> followed by the last \<open>.\<close>-separated component
  of \<open>p\<close>: for a path \<open>stem.ext\<close>, with no dot in \<open>ext\<close>, that is \<open>image/ext\<close>.  When
  no image of the album is starred, and so when the album has no image, it fails
  with the 404 exception.
\<close>

theorem get_starred_result:
  assumes "sqlite_int a"
  shows
  "(img \<in> set (table s) \<and> album img = a \<and> starred img \<and> at_most_one_starred a (table s)
      \<and> filepath img = Some p \<longrightarrow>
        get_starred a s = Inr \<lparr>path = p, media_type = ''image/'' @ last (str_split CHR ''.'' p)\<rparr>
      \<and> (\<forall>stem ext. p = stem @ ''.'' @ ext \<and> CHR ''.'' \<notin> set ext \<longrightarrow>
            get_starred a s = Inr \<lparr>path = p, media_type = ''image/'' @ ext\<rparr>))
   \<and> ((\<forall>r \<in> set (table s). album r = a \<longrightarrow> \<not> starred r) \<longrightarrow>
        get_starred a s = Inl (HTTPException 404 ''No starred image found''))
   \<and> ((\<forall>r \<in> set (table s). album r \<noteq> a) \<longrightarrow>
        get_starred a s = Inl (HTTPException 404 ''No starred image found''))"
proof -
  have one: "get_starred a s = Inr \<lparr>path = p, media_type = ''image/'' @ last (str_split CHR ''.'' p)\<rparr>"
    if "img \<in> set (table s)" "album img = a" "starred img" "at_most_one_starred a (table s)"
      "filepath img = Some p"
  proof -
    have "img \<in> set (filter_by a True (table s))"
      using that by (simp add: filter_by_def)
    with that(4) have "filter_by a True (table s) = [img]"
      by (simp add: at_most_one_starred_def singleton_of_short)
    then have "first_row (filter_by a True (table s)) = Some img"
      by simp
    then show ?thesis using that(5) by (rule get_starred_of_first)
  qed
  have none: "get_starred a s = Inl (HTTPException 404 ''No starred image found'')"
    if "\<forall>r \<in> set (table s). album r = a \<longrightarrow> \<not> starred r"
  proof -
    have "filter_by a True (table s) = []"
      using that by (auto simp: filter_by_def filter_empty_conv)
    with assms show ?thesis by (simp add: get_starred_def session_exec_in_range)
  qed
  have ext: "last (str_split CHR ''.'' (stem @ ''.'' @ e)) = e" if "CHR ''.'' \<notin> set e" for stem e
    using last_str_split [OF that, of stem] by simp
  show ?thesis
    using one none ext by auto
qed

theorem get_starred_result_witness:
  "sqlite_int 3 \<and> sqlite_int 4
   \<and> at_most_one_starred 3 (table two_uploads)
   \<and> get_starred 3 two_uploads
       = Inr \<lparr>path = ''./images/00000000000000a1.jpeg'', media_type = ''image/jpeg''\<rparr>
   \<and> get_starred 3 starred_deleted = Inl (HTTPException 404 ''No starred image found'')
   \<and> get_starred 4 two_uploads = Inl (HTTPException 404 ''No starred image found'')"
  using get_starred_result
      [of 3 "\<lparr>album = 3, starred = True, img_id = 1, filepath = Some ''./images/00000000000000a1.jpeg''\<rparr>"
          two_uploads "''./images/00000000000000a1.jpeg''"]
    get_starred_result
      [of 3 "\<lparr>album = 3, starred = False, img_id = 2, filepath = Some ''./images/00000000000000b2.jpeg''\<rparr>"
          starred_deleted "''./images/00000000000000b2.jpeg''"]
    get_starred_result
      [of 4 "\<lparr>album = 3, starred = True, img_id = 1, filepath = Some ''./images/00000000000000a1.jpeg''\<rparr>"
          two_uploads "''./images/00000000000000a1.jpeg''"]
  by (simp add: two_uploads_eq starred_deleted_eq at_most_one_starred_def filter_by_def sqlite_int_def)

text \<open>
  The album of id \<open>2^63\<close>, one past the largest SQLite INTEGER, has no image, and
  so no starred image, and yet \<open>get_starred\<close> does not fail with the 404 exception:
  the query raises \<open>OverflowError\<close>.
\<close>

theorem get_starred_overflow:
  "filter_by 9223372036854775808 True (table two_uploads) = []
   \<and> select_where (AlbumEq 9223372036854775808) (table two_uploads) = []
   \<and> get_starred 9223372036854775808 two_uploads = Inl OverflowError"
  by (simp add: two_uploads_eq get_starred_def session_exec_def bind_int_def sqlite_int_def
      filter_by_def select_where_def matches_def)

section \<open>Starring an image\<close>

lemma update_starred_ids: "map img_id (update_starred i v rows) = map img_id rows"
  by (simp add: update_starred_def)

lemma update_starred_albums: "map album (update_starred i v rows) = map album rows"
  by (simp add: update_starred_def)

lemma update_starred_filepaths: "map filepath (update_starred i v rows) = map filepath rows"
  by (simp add: update_starred_def)

lemma update_starred_absent: "i \<notin> img_id ` set rows \<Longrightarrow> update_starred i v rows = rows"
  by (induction rows) (auto simp: update_starred_def)

lemma session_get_update:
  "session_get x (update_starred i v rows) =
     map_option (\<lambda>r. if img_id r = i then r\<lparr>starred := v\<rparr> else r) (session_get x rows)"
  by (induction rows) (auto simp: session_get_def update_starred_def)

lemma filter_by_unset:
  assumes "filter_by a True rows = [prev]"
  shows "filter_by a True (update_starred (img_id prev) False rows) = []"
proof -
  have "r = prev" if "r \<in> set rows" "album r = a" "starred r" for r
  proof -
    from that have "r \<in> set (filter_by a True rows)" by (simp add: filter_by_def)
    with assms show ?thesis by simp
  qed
  then show ?thesis
    by (auto simp: filter_by_def update_starred_def filter_empty_conv)
qed

lemma filter_by_set:
  assumes "distinct (map img_id rows)" and "filter_by a True rows = []"
    and "session_get x rows = Some img" and "album img = a"
  shows "filter_by a True (update_starred x True rows) = [img\<lparr>starred := True\<rparr>]"
  using assms
proof (induction rows)
  case Nil
  then show ?case by (simp add: session_get_def)
next
  case (Cons r rows)
  from Cons.prems(2) have rest: "filter_by a True rows = []" and r: "\<not> (album r = a \<and> starred r)"
    by (auto simp: filter_by_def split: if_splits)
  show ?case
  proof (cases "img_id r = x")
    case True
    with Cons.prems(3) have "img = r" by (simp add: session_get_def)
    moreover from True Cons.prems(1) have "update_starred x True rows = rows"
      by (intro update_starred_absent) auto
    ultimately show ?thesis
      using True rest Cons.prems(4) by (simp add: update_starred_def filter_by_def)
  next
    case False
    with Cons.prems(3) have "session_get x rows = Some img" by (simp add: session_get_def)
    with Cons.IH Cons.prems(1,4) rest
    have "filter_by a True (update_starred x True rows) = [img\<lparr>starred := True\<rparr>]" by simp
    with False r show ?thesis by (auto simp: update_starred_def filter_by_def)
  qed
qed

lemma filter_by_other_album:
  assumes "\<forall>r \<in> set rows. img_id r = i \<longrightarrow> album r \<noteq> b"
  shows "filter_by b w (update_starred i v rows) = filter_by b w rows"
  using assms by (induction rows) (auto simp: filter_by_def update_starred_def)

lemma same_key_same_row:
  "distinct (map f xs) \<Longrightarrow> x \<in> set xs \<Longrightarrow> y \<in> set xs \<Longrightarrow> f x = f y \<Longrightarrow> x = y"
  by (auto simp: distinct_map dest: inj_onD)

text \<open>
  C3.  After two uploads into album 3 and the deletion of the starred image, the
  image of key 2 belongs to album 3 and no image of the album is starred.
  \<open>set_starred 3 2\<close> does not complete: the unset step is applied to the missing
  previous image, \<open>AttributeError\<close> escapes the handler, and nothing is starred.
\<close>

theorem set_starred_none_starred:
  "session_get 2 (table starred_deleted)
     = Some \<lparr>album = 3, starred = False, img_id = 2, filepath = Some ''./images/00000000000000b2.jpeg''\<rparr>
   \<and> filter_by 3 True (table starred_deleted) = []
   \<and> set_starred 3 2 starred_deleted = (Inl AttributeError, starred_deleted)"
  by (simp add: starred_deleted_eq set_starred_unfold session_get_def filter_by_def sqlite_int_def)

lemma set_starred_ok:
  assumes "set_starred a x s = (Inr (), s')"
  obtains img prev where "session_get x (table s) = Some img" and "album img = a"
    and "first_row (filter_by a True (table s)) = Some prev"
    and "s' = s\<lparr>table := update_starred x True (update_starred (img_id prev) False (table s))\<rparr>"
proof -
  from assms obtain img where g: "session_get x (table s) = Some img"
    by (auto simp: set_starred_unfold split: option.splits if_splits)
  then have k: "img_id img = x" by (auto dest: session_get_Some)
  from assms g have al: "album img = a"
    by (auto simp: set_starred_unfold split: if_splits)
  from assms g al obtain prev where p: "first_row (filter_by a True (table s)) = Some prev"
    by (auto simp: set_starred_unfold split: option.splits if_splits)
  from assms g al p k
  have "s' = s\<lparr>table := update_starred x True (update_starred (img_id prev) False (table s))\<rparr>"
    by (auto simp: set_starred_unfold)
  with g al p show ?thesis by (rule that)
qed

text \<open>The effect of a successful \<open>set_starred\<close>.\<close>

lemma set_starred_effect:
  assumes "distinct (map img_id (table s))"
    and "at_most_one_starred a (table s)"
    and "set_starred a x s = (Inr (), s')"
  shows "(\<exists>img. session_get x (table s') = Some img \<and> album img = a \<and> starred img
            \<and> filter_by a True (table s') = [img]
            \<and> (\<forall>p. filepath img = Some p \<longrightarrow>
                 get_starred a s' =
                   Inr \<lparr>path = p, media_type = ''image/'' @ last (str_split CHR ''.'' p)\<rparr>))
       \<and> (\<forall>r \<in> set (table s'). album r = a \<and> img_id r \<noteq> x \<longrightarrow> \<not> starred r)
       \<and> at_most_one_starred a (table s')
       \<and> (\<forall>b. b \<noteq> a \<longrightarrow> filter_by b True (table s') = filter_by b True (table s))
       \<and> distinct (map img_id (table s'))
       \<and> map img_id (table s') = map img_id (table s)
       \<and> map album (table s') = map album (table s)
       \<and> map filepath (table s') = map filepath (table s)
       \<and> disk s' = disk s"
proof -
  from assms(3) obtain img prev where g: "session_get x (table s) = Some img" and al: "album img = a"
    and p: "first_row (filter_by a True (table s)) = Some prev"
    and s': "s' = s\<lparr>table := update_starred x True (update_starred (img_id prev) False (table s))\<rparr>"
    by (rule set_starred_ok)
  define rows1 where "rows1 = update_starred (img_id prev) False (table s)"
  define img1 where "img1 = (if img_id img = img_id prev then img\<lparr>starred := False\<rparr> else img)"
  define img2 where "img2 = img1\<lparr>starred := True\<rparr>"
  have t: "table s' = update_starred x True rows1"
    by (simp add: s' rows1_def)
  from p have "prev \<in> set (filter_by a True (table s))"
    by (cases "filter_by a True (table s)") (auto simp: first_row.simps)
  with assms(2) have "filter_by a True (table s) = [prev]"
    by (simp add: at_most_one_starred_def singleton_of_short)
  then have none: "filter_by a True rows1 = []"
    unfolding rows1_def by (rule filter_by_unset)
  have d1: "distinct (map img_id rows1)"
    using assms(1) by (simp add: rows1_def update_starred_ids)
  have g1: "session_get x rows1 = Some img1"
    by (simp add: rows1_def session_get_update g img1_def)
  have al1: "album img1 = a"
    using al by (simp add: img1_def)
  have k1: "img_id img1 = x"
    using g by (auto simp: img1_def dest: session_get_Some)
  have only: "filter_by a True (table s') = [img2]"
    unfolding t img2_def using d1 none g1 al1 by (rule filter_by_set)
  have g2: "session_get x (table s') = Some img2"
    using k1 by (simp add: t session_get_update g1 img2_def)
  have props: "album img2 = a" "starred img2"
    using al1 by (simp_all add: img2_def)
  have resp: "get_starred a s' = Inr \<lparr>path = q, media_type = ''image/'' @ last (str_split CHR ''.'' q)\<rparr>"
    if "filepath img2 = Some q" for q
    by (rule get_starred_of_first [OF _ that]) (simp add: only first_row.simps)
  have others: "\<not> starred r" if "r \<in> set (table s')" "album r = a" "img_id r \<noteq> x" for r
  proof
    assume "starred r"
    with that have "r \<in> set (filter_by a True (table s'))" by (simp add: filter_by_def)
    with only have "r = img2" by simp
    with that(3) k1 show False by (simp add: img2_def)
  qed
  have frame: "map img_id (table s') = map img_id (table s)"
    "map album (table s') = map album (table s)"
    "map filepath (table s') = map filepath (table s)"
    "disk s' = disk s"
    by (simp_all add: s' update_starred_ids update_starred_albums update_starred_filepaths)
  have inv: "at_most_one_starred a (table s')"
    by (simp add: at_most_one_starred_def only)
  have other: "filter_by b True (table s') = filter_by b True (table s)" if "b \<noteq> a" for b
  proof -
    have pm: "prev \<in> set (table s)" "album prev = a"
      using \<open>prev \<in> set (filter_by a True (table s))\<close> by (simp_all add: filter_by_def)
    have "album r \<noteq> b" if "r \<in> set (table s)" "img_id r = img_id prev" for r
      using same_key_same_row [OF assms(1) that(1) pm(1) that(2)] pm(2) \<open>b \<noteq> a\<close> by simp
    then have one: "filter_by b True rows1 = filter_by b True (table s)"
      unfolding rows1_def by (intro filter_by_other_album) simp
    have "album r \<noteq> b" if "r \<in> set rows1" "img_id r = x" for r
    proof -
      have "r = img1"
        using same_key_same_row [OF d1 that(1) _ ] g1 that(2) k1 by (auto dest: session_get_Some)
      with al1 \<open>b \<noteq> a\<close> show ?thesis by simp
    qed
    then have "filter_by b True (update_starred x True rows1) = filter_by b True rows1"
      by (intro filter_by_other_album) simp
    with one show ?thesis by (simp add: t)
  qed
  from g2 props only resp others inv other frame assms(1) show ?thesis
    by auto
qed

text \<open>
  C4.  In a state where the keys are unique and at most one image of album \<open>a\<close> is
  starred, a call \<open>set_starred a x\<close> that succeeds leaves the image of key \<open>x\<close> as
  the one and only starred image of album \<open>a\<close>: it is found under its key, belongs
  to the album and is starred, no other image of the album is starred, and
  \<open>get_starred a\<close> answers with the file stored for it.  At most one image of the
  album is starred afterwards, the starred images of every other album are the
  same, and keys, albums, paths and files are unchanged.
\<close>

theorem set_starred_unique:
  assumes "distinct (map img_id (table s))"
    and "at_most_one_starred a (table s)"
    and "set_starred a x s = (Inr (), s')"
  shows "(\<exists>img. session_get x (table s') = Some img \<and> album img = a \<and> starred img
            \<and> filter_by a True (table s') = [img]
            \<and> (\<forall>p. filepath img = Some p \<longrightarrow>
                 get_starred a s' =
                   Inr \<lparr>path = p, media_type = ''image/'' @ last (str_split CHR ''.'' p)\<rparr>))
       \<and> (\<forall>r \<in> set (table s'). album r = a \<and> img_id r \<noteq> x \<longrightarrow> \<not> starred r)
       \<and> at_most_one_starred a (table s')
       \<and> (\<forall>b. b \<noteq> a \<longrightarrow> filter_by b True (table s') = filter_by b True (table s))
       \<and> distinct (map img_id (table s'))
       \<and> map img_id (table s') = map img_id (table s)
       \<and> map album (table s') = map album (table s)
       \<and> map filepath (table s') = map filepath (table s)
       \<and> disk s' = disk s"
  using set_starred_effect [OF assms] .

theorem set_starred_unique_witness:
  "distinct (map img_id (table two_uploads))
   \<and> at_most_one_starred 3 (table two_uploads)
   \<and> fst (set_starred 3 2 two_uploads) = Inr ()
   \<and> table (snd (set_starred 3 2 two_uploads)) =
       [\<lparr>album = 3, starred = False, img_id = 1, filepath = Some ''./images/00000000000000a1.jpeg''\<rparr>,
        \<lparr>album = 3, starred = True, img_id = 2, filepath = Some ''./images/00000000000000b2.jpeg''\<rparr>]
   \<and> get_starred 3 (snd (set_starred 3 2 two_uploads))
       = Inr \<lparr>path = ''./images/00000000000000b2.jpeg'', media_type = ''image/jpeg''\<rparr>
   \<and> at_most_one_starred 3 (table (snd (set_starred 3 2 two_uploads)))
   \<and> disk (snd (set_starred 3 2 two_uploads)) = disk two_uploads"
  using set_starred_unique [of two_uploads 3 2 "snd (set_starred 3 2 two_uploads)"]
  by (simp add: two_uploads_eq set_starred_unfold session_get_def filter_by_def
      update_starred_def at_most_one_starred_def get_starred_def session_exec_def getitem_def)

text \<open>
  C10.  When the image of key \<open>x\<close> is the starred image of album \<open>a\<close> (keys unique,
  at most one image of the album starred), \<open>set_starred a x\<close> succeeds and the
  state after it is the state before it: the row that is unset and the row that
  is set are the same row, which stays the only starred image of the album.
\<close>

theorem set_starred_idempotent:
  assumes "distinct (map img_id (table s))"
    and "at_most_one_starred a (table s)"
    and "session_get x (table s) = Some img"
    and "album img = a"
    and "starred img"
  shows "set_starred a x s = (Inr (), s) \<and> filter_by a True (table s) = [img]"
proof -
  from assms(3) have mem: "img \<in> set (table s)" and k: "img_id img = x"
    by (auto dest: session_get_Some)
  with assms(4,5) have "img \<in> set (filter_by a True (table s))"
    by (simp add: filter_by_def)
  with assms(2) have only: "filter_by a True (table s) = [img]"
    by (simp add: at_most_one_starred_def singleton_of_short)
  have same: "starred r" if "r \<in> set (table s)" "img_id r = x" for r
  proof -
    from assms(1) that mem k have "r = img" by (intro same_key_same_row [of img_id "table s"]) auto
    with assms(5) show ?thesis by simp
  qed
  have "update_starred x True (update_starred x False (table s)) = table s"
    unfolding update_starred_def map_map comp_def
    by (rule map_idI) (auto simp: same)
  with assms(3,4) only k show ?thesis
    by (simp add: set_starred_unfold)
qed

theorem set_starred_idempotent_witness:
  "distinct (map img_id (table two_uploads))
   \<and> at_most_one_starred 3 (table two_uploads)
   \<and> session_get 1 (table two_uploads)
       = Some \<lparr>album = 3, starred = True, img_id = 1, filepath = Some ''./images/00000000000000a1.jpeg''\<rparr>
   \<and> set_starred 3 1 two_uploads = (Inr (), two_uploads)"
  using set_starred_idempotent
    [of two_uploads 3 1
        "\<lparr>album = 3, starred = True, img_id = 1, filepath = Some ''./images/00000000000000a1.jpeg''\<rparr>"]
  by (simp add: two_uploads_eq session_get_def filter_by_def at_most_one_starred_def)

section \<open>Invariants of the reachable states\<close>

text \<open>
  Every state that the handlers reach from the initial state has unique keys, at
  most one starred image in each album, a path in every row, and albums that are
  64-bit values.
\<close>

lemma foldr_max_ge: "i \<in> set xs \<Longrightarrow> i \<le> foldr max xs (0::int)"
  by (induction xs) auto

lemma next_id_fresh: "next_id rows \<notin> img_id ` set rows"
proof
  assume "next_id rows \<in> img_id ` set rows"
  then have "next_id rows \<in> set (map img_id rows)" by simp
  then have "next_id rows \<le> foldr max (map img_id rows) 0" by (rule foldr_max_ge)
  then show False by (simp add: next_id_def)
qed

lemma create_image_table_star:
  "table (snd (create_image a u tok io s)) = table s
   \<or> (\<exists>fp. table (snd (create_image a u tok io s)) =
         table s @ [\<lparr>album = a, starred = (\<forall>r \<in> set (table s). album r \<noteq> a),
                      img_id = next_id (table s), filepath = Some fp\<rparr>]
        \<and> (sqlite_int a \<or> (\<exists>r \<in> set (table s). album r = a)))"
proof (cases "select_where (py_and (AlbumEq a) (Literal False)) (table s)")
  case Nil
  then have none: "\<forall>r \<in> set (table s). album r \<noteq> a"
    by (auto simp: select_where_def py_and_def truthy_def matches_def filter_empty_conv)
  with Nil show ?thesis
    by (cases io; cases "sqlite_int a")
      (auto simp: create_image_def open_write_def session_add_def Let_def session_exec_def
        bind_int_def split: sum.splits option.splits)
next
  case (Cons r rest)
  then have "r \<in> set (select_where (py_and (AlbumEq a) (Literal False)) (table s))" by simp
  then have some: "r \<in> set (table s)" "album r = a"
    by (auto simp: select_where_def py_and_def truthy_def matches_def)
  with Cons show ?thesis
    by (cases io)
      (auto simp: create_image_def open_write_def session_add_def Let_def session_exec_def
        split: sum.splits option.splits)
qed

lemma create_image_keys:
  assumes "distinct (map img_id (table s))"
  shows "distinct (map img_id (table (snd (create_image a u tok io s))))"
  using create_image_table_star [of a u tok io s] assms next_id_fresh [of "table s"] by auto

lemma delete_image_keys:
  assumes "distinct (map img_id (table s))"
  shows "distinct (map img_id (table (snd (delete_image i s))))"
  using assms
  by (auto simp: delete_image_unfold session_delete_def distinct_map_filter split: option.splits)

lemma set_starred_keys:
  assumes "distinct (map img_id (table s))"
  shows "distinct (map img_id (table (snd (set_starred a x s))))"
  using assms
  by (auto simp: set_starred_unfold update_starred_ids split: option.splits)

lemma create_image_one_starred:
  assumes "at_most_one_starred b (table s)"
  shows "at_most_one_starred b (table (snd (create_image a u tok io s)))"
  using create_image_table_star [of a u tok io s] assms
  by (auto simp: at_most_one_starred_def filter_by_def filter_empty_conv)

lemma length_filter_filter:
  "length (filter P (filter Q xs)) \<le> length (filter P xs)"
  by (induction xs) auto

lemma delete_image_one_starred:
  assumes "at_most_one_starred b (table s)"
  shows "at_most_one_starred b (table (snd (delete_image i s)))"
proof (cases "session_get i (table s)")
  case None
  with assms show ?thesis by (simp add: delete_image_unfold)
next
  case (Some img)
  have "length (filter_by b True (session_delete img (table s))) \<le> length (filter_by b True (table s))"
    unfolding filter_by_def session_delete_def by (rule length_filter_filter)
  with assms Some show ?thesis
    by (simp add: at_most_one_starred_def delete_image_unfold)
qed

lemma set_starred_cases:
  "snd (set_starred a x s) = s \<or> set_starred a x s = (Inr (), snd (set_starred a x s))"
  by (auto simp: set_starred_unfold split: option.splits)

lemma set_starred_one_starred:
  assumes "distinct (map img_id (table s))" and "at_most_one_starred b (table s)"
    and "at_most_one_starred a (table s)"
  shows "at_most_one_starred b (table (snd (set_starred a x s)))"
proof -
  consider "snd (set_starred a x s) = s"
    | "set_starred a x s = (Inr (), snd (set_starred a x s))"
    using set_starred_cases by blast
  then show ?thesis
  proof cases
    case 1
    with assms(2) show ?thesis by simp
  next
    case 2
    from set_starred_effect [OF assms(1,3) 2] assms(2) show ?thesis
      by (cases "b = a") (auto simp: at_most_one_starred_def)
  qed
qed

lemma set_starred_filepaths:
  "map filepath (table (snd (set_starred a x s))) = map filepath (table s)"
  by (auto simp: set_starred_unfold update_starred_filepaths split: option.splits)

lemma delete_image_subset: "set (table (snd (delete_image i s))) \<subseteq> set (table s)"
  by (auto simp: delete_image_unfold session_delete_def split: option.splits)

lemma set_starred_albums: "map album (table (snd (set_starred a x s))) = map album (table s)"
  by (auto simp: set_starred_unfold update_starred_albums split: option.splits)

lemma reachable_invariant:
  assumes "reachable s"
  shows "distinct (map img_id (table s)) \<and> (\<forall>b. at_most_one_starred b (table s))
     \<and> None \<notin> set (map filepath (table s))
     \<and> (\<forall>r \<in> set (table s). sqlite_int (album r))"
  using assms
proof (induction rule: reachable.induct)
  case start
  then show ?case by (simp add: init_state_def at_most_one_starred_def filter_by_def)
next
  case (upload s a u tok io)
  have "None \<notin> set (map filepath (table (snd (create_image a u tok io s))))"
    and "\<forall>r \<in> set (table (snd (create_image a u tok io s))). sqlite_int (album r)"
    using create_image_table_star [of a u tok io s] upload.IH by auto
  with upload.IH show ?case
    by (simp add: create_image_keys create_image_one_starred)
next
  case (delete s i)
  have "None \<notin> set (map filepath (table (snd (delete_image i s))))"
    and "\<forall>r \<in> set (table (snd (delete_image i s))). sqlite_int (album r)"
    using delete.IH delete_image_subset [of i s] by auto
  with delete.IH show ?case
    by (simp add: delete_image_keys delete_image_one_starred)
next
  case (star s a x)
  have "album ` set (table (snd (set_starred a x s))) = album ` set (table s)"
    using set_starred_albums [of a x s] by (metis set_map)
  moreover have "\<forall>v \<in> album ` set (table s). sqlite_int v"
    using star.IH by auto
  ultimately have "\<forall>r \<in> set (table (snd (set_starred a x s))). sqlite_int (album r)"
    by (metis imageI)
  with star.IH show ?case
    by (simp add: set_starred_keys set_starred_one_starred set_starred_filepaths del: set_map)
qed

text \<open>
  In a reachable state the stored albums are 64-bit values, so a query with an
  album id out of range raises \<open>OverflowError\<close>, whatever the table holds.
\<close>

lemma reachable_overflow:
  assumes "reachable s" and "\<not> sqlite_int a"
  shows "get_album a s = Inl OverflowError"
    and "get_starred a s = Inl OverflowError"
    and "content_type u = Some ct \<Longrightarrow> startswith ct ''image'' \<Longrightarrow> CHR ''/'' \<in> set ct \<Longrightarrow>
           create_image a u tok io s = (Inl OverflowError, s)"
proof -
  from assms(1) have stored: "\<forall>r \<in> set (table s). sqlite_int (album r)"
    by (simp add: reachable_invariant)
  with assms(2) have none: "\<forall>r \<in> set (table s). album r \<noteq> a" by auto
  from none assms(2) show "get_album a s = Inl OverflowError"
    by (simp add: get_album_def select_where_def matches_def filter_empty_conv [THEN iffD2]
        session_exec_overflow)
  from stored assms(2) show "get_starred a s = Inl OverflowError"
    by (simp add: get_starred_def session_exec_stored)
  show "create_image a u tok io s = (Inl OverflowError, s)"
    if "content_type u = Some ct" "startswith ct ''image''" "CHR ''/'' \<in> set ct"
    using that assms(2) none by (rule create_image_overflow)
qed

lemma reachable_two_uploads: "reachable two_uploads"
  unfolding two_uploads_def by (intro reachable.upload reachable.start)

lemma reachable_starred_deleted: "reachable starred_deleted"
  unfolding starred_deleted_def by (intro reachable.delete reachable_two_uploads)

end
